theory Spec2Isabelle
  imports Main "HOL-Library.Multiset" "HOL-Library.AList" "HOL-Library.Sublist"
begin

section \<open>Data model\<close>

text \<open>
  The two entities of the store.  The classes \<open>Question\<close> and \<open>Category\<close> are imported
  by \<open>flaskr/__init__.py\<close> from \<open>models\<close>; the field names carry a prefix because
  \<open>id\<close> is a constant of HOL.
\<close>

record Question =
  q_id :: int
  q_question :: string
  q_answer :: string
  q_category :: int
  q_difficulty :: int

record Category =
  c_id :: int
  c_type :: string

text \<open>
  The store: the rows of both tables in the order the database holds them, and the
  sequence from which the next question id is drawn.
\<close>

record store =
  question_rows :: "Question list"
  category_rows :: "Category list"
  next_id :: int

subsection \<open>Exceptions and responses\<close>

text \<open>
  \<open>abort(code)\<close> raises an \<open>HTTPException\<close> carrying the status code; the other
  constructors are the Python exceptions the handlers can raise.  A handler returns
  \<open>Inl\<close> of the exception that leaves it, or \<open>Inr\<close> of the JSON payload.
\<close>

datatype exn =
  HTTPException nat | AttributeError | KeyError | IndexError | MultipleResultsFound | DataError

definition abort :: "nat \<Rightarrow> exn + 'a" where
  "abort code = Inl (HTTPException code)"

text \<open>\<open>try: ... except: abort(code)\<close>: the bare \<open>except\<close> catches every exception.\<close>

definition except_abort :: "nat \<Rightarrow> exn + 'a \<Rightarrow> exn + 'a" where
  "except_abort code r = (case r of Inl e \<Rightarrow> abort code | Inr v \<Rightarrow> Inr v)"

text \<open>
  The status the client sees: an \<open>HTTPException\<close> is rendered by the error handler of
  its code, any other exception that leaves a handler is a server error, and a payload
  is sent with status 200.
\<close>

fun status :: "exn + 'a \<Rightarrow> nat" where
  "status (Inl (HTTPException code)) = code"
| "status (Inl _) = 500"
| "status (Inr _) = 200"

text \<open>The JSON payloads, one record per shape; shared keys are inherited.\<close>

record response =
  success :: bool

record question_list = response +
  questions :: "Question list"
  total_questions :: nat
  current_category :: "int option"

record question_page = question_list +
  categories :: "(int \<times> string) list"

record deletion = response +
  deleted :: int

text \<open>\<open>POST /questions\<close> answers with one of two shapes.\<close>

datatype post_response = Created response | Found question_list

subsection \<open>Request bodies\<close>

text \<open>
  The JSON bodies, with the types the spec gives their fields; \<open>None\<close> is a key that is
  absent or \<open>null\<close>, which \<open>body.get(key, None)\<close> does not tell apart.
\<close>

record post_body =
  body_question :: "string option"
  body_answer :: "string option"
  body_category :: "int option"
  body_difficulty :: "int option"
  body_searchTerm :: "string option"

text \<open>
  \<open>quiz_category\<close> is a dict \<open>{id, type}\<close>; here \<open>None\<close> is a key the dict does not
  have, so \<open>qc_id = None\<close> makes \<open>category["id"]\<close> raise \<open>KeyError\<close>.
\<close>

record quiz_category =
  qc_id :: "int option"
  qc_type :: "string option"

record quiz_body =
  previous_questions :: "int list option"
  quiz_category :: "quiz_category option"

section \<open>Query and transform layer\<close>

definition QUESTIONS_PER_PAGE :: int where
  "QUESTIONS_PER_PAGE = 10"

text \<open>
  Python's \<open>xs[start:stop]\<close>: a negative bound counts from the end of the list, and
  both bounds are clamped to \<open>0 .. len(xs)\<close>.
\<close>

definition slice_index :: "int \<Rightarrow> int \<Rightarrow> int" where
  "slice_index n i = (if i < 0 then max (i + n) 0 else min i n)"

definition py_slice :: "'a list \<Rightarrow> int \<Rightarrow> int \<Rightarrow> 'a list" where
  "py_slice xs start stop =
     (let n = int (length xs); lo = slice_index n start; hi = slice_index n stop
      in take (nat (hi - lo)) (drop (nat lo) xs))"

text \<open>\<open>request.args.get("page", 1, type=int)\<close>: the parsed argument, 1 when there is none.\<close>

definition page_arg :: "int option \<Rightarrow> int" where
  "page_arg a = (case a of None \<Rightarrow> 1 | Some p \<Rightarrow> p)"

text \<open>
  Modelled from the spec: \<open>Question.format\<close> and \<open>Category.format\<close> (\<open>models.py\<close> is not
  part of the sources).  "Each Question/Category in responses is a flat object of its
  attributes", so the formatted row is the row.
\<close>

definition format :: "'a \<Rightarrow> 'a" where
  "format row = row"

text \<open>\<open>Question.query.order_by(Question.id).all()\<close>\<close>

definition all_ordered :: "store \<Rightarrow> Question list" where
  "all_ordered st = sort_key q_id (question_rows st)"

text \<open>
  \<open>format_categories\<close>: the dict is filled in ascending id order; a dict keeps the
  position of a key that is assigned again.
\<close>

definition format_categories :: "store \<Rightarrow> (int \<times> string) list" where
  "format_categories st =
     (let result = sort_key c_id (category_rows st);
          formatted = map format result
      in fold (\<lambda>category categories. AList.update (c_id category) (c_type category) categories)
           formatted [])"

section \<open>Handlers\<close>

subsection \<open>GET /questions\<close>

definition get_questions :: "int option \<Rightarrow> store \<Rightarrow> exn + question_page" where
  "get_questions a st =
     (let page = page_arg a;
          start = (page - 1) * QUESTIONS_PER_PAGE;
          end = start + QUESTIONS_PER_PAGE;
          query = all_ordered st;
          questions = map format query;
          current_questions = py_slice questions start end;
          categories = format_categories st
      in if length current_questions = 0 then abort 404
         else Inr \<lparr> success = True, questions = current_questions,
                    total_questions = length questions, current_category = None,
                    categories = categories \<rparr>)"

subsection \<open>DELETE /questions/<id>\<close>

text \<open>\<open>Query.one_or_none()\<close>: the only row, \<open>None\<close> when there is none, an exception otherwise.\<close>

definition one_or_none :: "'a list \<Rightarrow> exn + 'a option" where
  "one_or_none rows =
     (case rows of [] \<Rightarrow> Inr None | [row] \<Rightarrow> Inr (Some row) | _ \<Rightarrow> Inl MultipleResultsFound)"

text \<open>
  Modelled from the spec: \<open>Question.delete\<close> (\<open>models.py\<close> is not part of the sources).
  "If present, remove it from the store": the row with this primary key leaves the table.
\<close>

definition delete_row :: "Question \<Rightarrow> store \<Rightarrow> store" where
  "delete_row row st =
     st\<lparr>question_rows := filter (\<lambda>q. q_id q \<noteq> q_id row) (question_rows st)\<rparr>"

definition delete_question :: "int \<Rightarrow> store \<Rightarrow> (exn + deletion) \<times> store" where
  "delete_question i st =
     (let body =
        (case one_or_none (filter (\<lambda>q. q_id q = i) (question_rows st)) of
           Inl e \<Rightarrow> (Inl e, st)
         | Inr None \<Rightarrow> (abort 404, st)
         | Inr (Some found) \<Rightarrow>
             (Inr \<lparr> success = True, deleted = i \<rparr>, delete_row found st))
      in (except_abort 422 (fst body), snd body))"

subsection \<open>POST /questions\<close>

text \<open>
  \<open>Question.question.ilike(pattern)\<close> is SQL's \<open>ILIKE\<close>: in the pattern \<open>%\<close> stands for any
  run of characters, \<open>_\<close> for any one character, a backslash makes the next character
  stand for itself, and letters match whatever their case.  A pattern that ends in a
  lone backslash is an error of the database.
\<close>

definition lower :: "char \<Rightarrow> char" where
  "lower c =
     (case map_of (zip ''ABCDEFGHIJKLMNOPQRSTUVWXYZ'' ''abcdefghijklmnopqrstuvwxyz'') c of
        None \<Rightarrow> c | Some l \<Rightarrow> l)"

fun like :: "string \<Rightarrow> string \<Rightarrow> bool" where
  "like [] s = (s = [])"
| "like (p # ps) s =
     (if p = CHR ''%'' then
        like ps s \<or> (case s of [] \<Rightarrow> False | c # cs \<Rightarrow> like (p # ps) cs)
      else if p = CHR ''_'' then
        (case s of [] \<Rightarrow> False | c # cs \<Rightarrow> like ps cs)
      else if p = CHR 0x5C then
        (case ps of [] \<Rightarrow> False
         | e # es \<Rightarrow> (case s of [] \<Rightarrow> False | c # cs \<Rightarrow> c = e \<and> like es cs))
      else
        (case s of [] \<Rightarrow> False | c # cs \<Rightarrow> c = p \<and> like ps cs))"

fun valid_pattern :: "string \<Rightarrow> bool" where
  "valid_pattern [] = True"
| "valid_pattern [p] = (p \<noteq> CHR 0x5C)"
| "valid_pattern (p # e # ps) = (if p = CHR 0x5C then valid_pattern ps else valid_pattern (e # ps))"

definition ilike :: "string \<Rightarrow> string \<Rightarrow> bool" where
  "ilike pattern text = like (map lower pattern) (map lower text)"

text \<open>
  \<open>Question.query.order_by(Question.id).filter(Question.question.ilike(f"%{searchTerm}%")).all()\<close>
\<close>

definition search_query :: "string \<Rightarrow> store \<Rightarrow> exn + Question list" where
  "search_query searchTerm st =
     (let pattern = ''%'' @ searchTerm @ ''%''
      in if valid_pattern pattern
         then Inr (filter (\<lambda>q. ilike pattern (q_question q)) (all_ordered st))
         else Inl DataError)"

text \<open>
  Python's \<open>not v\<close> on a field of the body: \<open>None\<close>, the empty string and 0 are falsy.
\<close>

definition falsy_str :: "string option \<Rightarrow> bool" where
  "falsy_str v = (case v of None \<Rightarrow> True | Some s \<Rightarrow> s = [])"

definition falsy_int :: "int option \<Rightarrow> bool" where
  "falsy_int v = (case v of None \<Rightarrow> True | Some n \<Rightarrow> n = 0)"

text \<open>
  Modelled from the spec: the constructor \<open>Question(...)\<close> and \<open>Question.insert\<close>
  (\<open>models.py\<close> is not part of the sources).  "Construct and persist a new Question row;
  store-assigned id": the row is added with the next id of the sequence.
\<close>

definition insert_question :: "string \<Rightarrow> string \<Rightarrow> int \<Rightarrow> int \<Rightarrow> store \<Rightarrow> store" where
  "insert_question question answer category difficulty st =
     st\<lparr>question_rows := question_rows st @
            [\<lparr> q_id = next_id st, q_question = question, q_answer = answer,
               q_category = category, q_difficulty = difficulty \<rparr>],
        next_id := next_id st + 1\<rparr>"

text \<open>
  The body is read before the \<open>try\<close>: \<open>body.get\<close> on a body that is not a dict raises
  outside it.  In create mode the last \<open>case\<close> only unpacks the four fields, which the
  test before it has found truthy.
\<close>

definition create_question ::
  "post_body option \<Rightarrow> int option \<Rightarrow> store \<Rightarrow> (exn + post_response) \<times> store" where
  "create_question json a st =
     (case json of
        None \<Rightarrow> (Inl AttributeError, st)
      | Some body \<Rightarrow>
          let question = body_question body;
              answer = body_answer body;
              category = body_category body;
              difficulty = body_difficulty body;
              searchTerm = body_searchTerm body;
              r =
                (case (if \<not> falsy_str searchTerm then searchTerm else None) of
                   Some term \<Rightarrow>
                     (case search_query term st of
                        Inl e \<Rightarrow> (Inl e, st)
                      | Inr query \<Rightarrow>
                          let page = page_arg a;
                              start = (page - 1) * QUESTIONS_PER_PAGE;
                              end = start + QUESTIONS_PER_PAGE;
                              questions = map format query;
                              current_questions = py_slice questions start end
                          in (Inr (Found \<lparr> success = True, questions = current_questions,
                                     total_questions = length questions,
                                     current_category = None \<rparr>), st))
                 | None \<Rightarrow>
                     if falsy_str question \<or> falsy_str answer \<or> falsy_int category
                        \<or> falsy_int difficulty
                     then (abort 400, st)
                     else
                       (case (question, answer, category, difficulty) of
                          (Some q, Some an, Some c, Some d) \<Rightarrow>
                            (Inr (Created \<lparr> success = True \<rparr>), insert_question q an c d st)
                        | _ \<Rightarrow> (abort 400, st)))
          in (except_abort 422 (fst r), snd r))"

subsection \<open>GET /categories/<category_id>/questions\<close>

definition get_by_category :: "int \<Rightarrow> store \<Rightarrow> exn + question_list" where
  "get_by_category category_id st =
     (let query = sort_key q_id (filter (\<lambda>q. q_category q = category_id) (question_rows st));
          questions = map format query
      in Inr \<lparr> success = True, questions = questions, total_questions = length questions,
               current_category = None \<rparr>)"

subsection \<open>POST /quizzes\<close>

record quiz = response +
  question :: "Question option"

text \<open>
  \<open>category and category["id"]\<close>: a missing or empty dict is falsy; a dict without the
  key raises; an id of 0 is falsy.  The result is the id to filter by, if any.
\<close>

definition category_id_of :: "quiz_category option \<Rightarrow> exn + int option" where
  "category_id_of category =
     (case category of
        None \<Rightarrow> Inr None
      | Some c \<Rightarrow>
          if qc_id c = None \<and> qc_type c = None then Inr None
          else (case qc_id c of
                  None \<Rightarrow> Inl KeyError
                | Some i \<Rightarrow> if i = 0 then Inr None else Inr (Some i)))"

text \<open>
  \<open>random.choice(seq)\<close> returns \<open>seq[k]\<close> for a \<open>k\<close> below \<open>len(seq)\<close> drawn by the
  generator; \<open>rnd\<close> is the generator's draw.
\<close>

definition choice :: "nat \<Rightarrow> 'a list \<Rightarrow> exn + 'a" where
  "choice rnd seq = (if seq = [] then Inl IndexError else Inr (seq ! (rnd mod length seq)))"

text \<open>
  The loop \<open>for question in list(questions): if question["id"] in past_questions:
  questions.remove(question)\<close> runs over a copy and removes the first equal element.
\<close>

definition remove_past :: "int list \<Rightarrow> Question list \<Rightarrow> Question list" where
  "remove_past past_questions candidates =
     fold (\<lambda>q qs. if q_id q \<in> set past_questions then remove1 q qs else qs)
       candidates candidates"

text \<open>
  The two queries of the handler: the questions of the category when an id is given,
  all questions otherwise, in the order the table holds them.
\<close>

definition fetch_questions :: "int option \<Rightarrow> store \<Rightarrow> Question list" where
  "fetch_questions cid st =
     (case cid of
        Some i \<Rightarrow> filter (\<lambda>q. q_category q = i) (question_rows st)
      | None \<Rightarrow> question_rows st)"

definition get_quizzes :: "quiz_body option \<Rightarrow> nat \<Rightarrow> store \<Rightarrow> exn + quiz" where
  "get_quizzes json rnd st =
     except_abort 400
       (case json of
          None \<Rightarrow> Inl AttributeError
        | Some body \<Rightarrow>
            let past_questions = previous_questions body;
                category = quiz_category body
            in (case category_id_of category of
                  Inl e \<Rightarrow> Inl e
                | Inr cid \<Rightarrow>
                    let query = fetch_questions cid st;
                        questions = map format query
                    in if length questions = 0 then abort 404
                       else
                         let questions =
                               (case past_questions of
                                  None \<Rightarrow> questions
                                | Some past \<Rightarrow>
                                    if past = [] then questions else remove_past past questions)
                         in if length questions \<noteq> 0
                            then (case choice rnd questions of
                                    Inl e \<Rightarrow> Inl e
                                  | Inr chosen \<Rightarrow>
                                      Inr \<lparr> success = True, question = Some chosen \<rparr>)
                            else Inr \<lparr> success = True, question = None \<rparr>))"

section \<open>Notions of the specification\<close>

text \<open>The window both paginating handlers compute from the page number.\<close>

definition window :: "int \<Rightarrow> 'a list \<Rightarrow> 'a list" where
  "window page xs =
     py_slice xs ((page - 1) * QUESTIONS_PER_PAGE)
       ((page - 1) * QUESTIONS_PER_PAGE + QUESTIONS_PER_PAGE)"

text \<open>
  The specification's slice \<open>[a, b)\<close> of a list, in its own words: the elements whose
  position \<open>i\<close>, counted from 0, satisfies \<open>a \<le> i < b\<close>.
\<close>

definition slice_spec :: "'a list \<Rightarrow> int \<Rightarrow> int \<Rightarrow> 'a list" where
  "slice_spec xs a b =
     map snd (filter (\<lambda>(i, x). a \<le> int i \<and> int i < b) (enumerate 0 xs))"

text \<open>
  The specification's search predicate, in its own words: the term occurs in the text
  as a substring, whatever the case of the letters.
\<close>

definition contains_ci :: "string \<Rightarrow> string \<Rightarrow> bool" where
  "contains_ci term text = sublist (map lower term) (map lower text)"

text \<open>The characters with a meaning of their own in a pattern of \<open>ILIKE\<close>.\<close>

definition special :: "char \<Rightarrow> bool" where
  "special c = (c = CHR ''%'' \<or> c = CHR ''_'' \<or> c = CHR 0x5C)"

definition wildcard_free :: "string \<Rightarrow> bool" where
  "wildcard_free term = list_all (\<lambda>c. \<not> special c) term"

text \<open>The ids a quiz request excludes: none when the key is absent.\<close>

definition past_ids :: "quiz_body \<Rightarrow> int list" where
  "past_ids body = (case previous_questions body of None \<Rightarrow> [] | Some past \<Rightarrow> past)"

subsection \<open>Example stores\<close>

definition sample :: "int \<Rightarrow> Question" where
  "sample i = \<lparr> q_id = i, q_question = ''What is H2O?'', q_answer = ''Water'',
                 q_category = 1, q_difficulty = 1 \<rparr>"

definition empty_store :: store where
  "empty_store = \<lparr> question_rows = [], category_rows = [], next_id = 1 \<rparr>"

definition one_question :: store where
  "one_question = \<lparr> question_rows = [sample 1],
                     category_rows = [\<lparr> c_id = 1, c_type = ''Science'' \<rparr>], next_id = 2 \<rparr>"

definition eleven_questions :: store where
  "eleven_questions =
     \<lparr> question_rows = map sample [11, 10, 9, 8, 7, 6, 5, 4, 3, 2, 1],
       category_rows = [\<lparr> c_id = 1, c_type = ''Science'' \<rparr>], next_id = 12 \<rparr>"

section \<open>Properties\<close>

subsection \<open>Slices and windows\<close>

lemma py_slice_nonneg:
  "0 \<le> start \<Longrightarrow> 0 \<le> stop \<Longrightarrow>
   py_slice xs start stop = take (nat (stop - start)) (drop (nat start) xs)"
  by (auto simp: py_slice_def slice_index_def Let_def min_def)

lemma sublist_py_slice: "sublist (py_slice xs start stop) xs"
  unfolding py_slice_def Let_def
  by (rule sublist_order.order.trans [OF sublist_take sublist_drop])

lemma length_window: "length (window page xs) \<le> 10"
  by (auto simp: window_def QUESTIONS_PER_PAGE_def py_slice_def slice_index_def Let_def min_def max_def)

lemma window_positive:
  "1 \<le> page \<Longrightarrow> window page xs = take 10 (drop (nat ((page - 1) * 10)) xs)"
  by (simp add: window_def QUESTIONS_PER_PAGE_def py_slice_nonneg)

lemma window_zero: "window 0 xs = []"
  by (simp add: window_def QUESTIONS_PER_PAGE_def py_slice_def slice_index_def Let_def)

lemma slice_spec_enumerate:
  "map snd (filter (\<lambda>(i, x). a \<le> int i \<and> int i < b) (enumerate k xs)) =
     take (nat (b - max a (int k))) (drop (nat (a - int k)) xs)"
proof (induction xs arbitrary: k)
  case Nil
  show ?case by simp
next
  case (Cons x xs)
  note IH = Cons.IH [of "Suc k"]
  consider (before) "int k < a" | (inside) "a \<le> int k" "int k < b" | (after) "a \<le> int k" "b \<le> int k"
    by linarith
  then show ?case
  proof cases
    case before
    then have "nat (a - int k) = Suc (nat (a - int (Suc k)))" by simp
    moreover have "max a (int (Suc k)) = a" "max a (int k) = a" using before by simp_all
    ultimately show ?thesis using before IH by simp
  next
    case inside
    then have "nat (a - int k) = 0" "nat (a - int (Suc k)) = 0" by simp_all
    moreover have "max a (int (Suc k)) = int (Suc k)" "max a (int k) = int k" using inside by simp_all
    moreover have "nat (b - int k) = Suc (nat (b - int (Suc k)))" using inside by simp
    ultimately show ?thesis using inside IH by simp
  next
    case after
    then have "nat (b - max a (int (Suc k))) = 0" "nat (b - max a (int k)) = 0" by simp_all
    then show ?thesis using after IH by simp
  qed
qed

lemma slice_spec_nonneg:
  "0 \<le> a \<Longrightarrow> slice_spec xs a b = take (nat (b - a)) (drop (nat a) xs)"
  by (simp add: slice_spec_def slice_spec_enumerate max_def)

subsection \<open>Listing questions\<close>

lemma map_format: "map format xs = xs"
  by (induction xs) (simp_all add: format_def)

lemma get_questions_eq:
  "get_questions a st =
     (if window (page_arg a) (all_ordered st) = [] then Inl (HTTPException 404)
      else Inr \<lparr> success = True, questions = window (page_arg a) (all_ordered st),
                 total_questions = length (question_rows st), current_category = None,
                 categories = format_categories st \<rparr>)"
  by (simp add: get_questions_def window_def map_format Let_def abort_def all_ordered_def)

text \<open>
  C6: whenever the window computed from the page is an empty slice of the ordered
  question list, listing fails with 404; this is so for a page beyond the last
  non-empty one and for a store with no questions at all.
\<close>

theorem get_questions_empty_window:
  assumes "window (page_arg a) (all_ordered st) = []
           \<or> (1 \<le> page_arg a \<and> int (length (question_rows st)) \<le> (page_arg a - 1) * 10)
           \<or> question_rows st = []"
  shows "get_questions a st = Inl (HTTPException 404) \<and> status (get_questions a st) = 404"
proof -
  have "window (page_arg a) (all_ordered st) = []"
    using assms
  proof (elim disjE conjE)
    assume "1 \<le> page_arg a" and "int (length (question_rows st)) \<le> (page_arg a - 1) * 10"
    then show ?thesis by (simp add: window_positive all_ordered_def)
  next
    assume "question_rows st = []"
    then show ?thesis by (simp add: all_ordered_def window_def py_slice_def)
  qed
  then show ?thesis by (simp add: get_questions_eq)
qed

text \<open>Page 2 of a store with one question.\<close>

theorem get_questions_empty_window_witness:
  "window (page_arg (Some 2)) (all_ordered one_question) = [] \<and>
   get_questions (Some 2) one_question = Inl (HTTPException 404) \<and>
   status (get_questions (Some 2) one_question) = 404"
proof -
  have h: "window (page_arg (Some 2)) (all_ordered one_question) = []"
    by (simp add: page_arg_def window_positive all_ordered_def one_question_def)
  show ?thesis
    using h get_questions_empty_window [of "Some 2" one_question] by simp
qed

text \<open>
  C5, as amended: when listing succeeds, the returned questions are the window of the
  questions ordered by ascending id, a contiguous run of at most 10 of them, and
  \<open>total_questions\<close> counts all questions of the store; for a page that is not
  negative the window is exactly the slice from \<open>(page - 1) * 10\<close> to
  \<open>(page - 1) * 10 + 10\<close>.
\<close>

theorem get_questions_window:
  assumes "get_questions a st = Inr r"
  shows "questions r = window (page_arg a) (all_ordered st) \<and>
         sublist (questions r) (all_ordered st) \<and>
         sorted (map q_id (all_ordered st)) \<and>
         mset (all_ordered st) = mset (question_rows st) \<and>
         length (questions r) \<le> 10 \<and>
         total_questions r = length (question_rows st) \<and>
         (0 \<le> page_arg a \<longrightarrow>
            questions r = slice_spec (all_ordered st) ((page_arg a - 1) * QUESTIONS_PER_PAGE)
                            ((page_arg a - 1) * QUESTIONS_PER_PAGE + QUESTIONS_PER_PAGE))"
proof -
  have ne: "window (page_arg a) (all_ordered st) \<noteq> []"
    and q: "questions r = window (page_arg a) (all_ordered st)"
    and t: "total_questions r = length (question_rows st)"
    using assms by (auto simp: get_questions_eq split: if_splits)
  have sub: "sublist (questions r) (all_ordered st)"
    by (simp add: q window_def sublist_py_slice)
  have ord: "sorted (map q_id (all_ordered st))" "mset (all_ordered st) = mset (question_rows st)"
    by (simp_all add: all_ordered_def)
  have len: "length (questions r) \<le> 10"
    by (simp add: q length_window)
  have spec: "questions r = slice_spec (all_ordered st) ((page_arg a - 1) * QUESTIONS_PER_PAGE)
                            ((page_arg a - 1) * QUESTIONS_PER_PAGE + QUESTIONS_PER_PAGE)"
    if "0 \<le> page_arg a"
  proof -
    have "page_arg a \<noteq> 0" using ne window_zero by metis
    with that have "1 \<le> page_arg a" by simp
    then show ?thesis
      by (simp add: q window_positive slice_spec_nonneg QUESTIONS_PER_PAGE_def)
  qed
  show ?thesis using q sub ord len t spec by blast
qed

text \<open>Page 2 of a store with eleven questions holds the last one.\<close>

theorem get_questions_window_witness:
  "get_questions (Some 2) eleven_questions =
     Inr \<lparr> success = True, questions = [sample 11], total_questions = 11,
            current_category = None, categories = [(1, ''Science'')] \<rparr> \<and>
   [sample 11] = slice_spec (all_ordered eleven_questions) 10 20"
proof -
  have h: "get_questions (Some 2) eleven_questions =
     Inr \<lparr> success = True, questions = [sample 11], total_questions = 11,
            current_category = None, categories = [(1, ''Science'')] \<rparr>"
    by (simp add: get_questions_eq page_arg_def window_positive all_ordered_def
          eleven_questions_def sample_def format_categories_def format_def)
  have "0 \<le> page_arg (Some 2)"
    by (simp add: page_arg_def)
  with get_questions_window [OF h]
  have w: "questions \<lparr> success = True, questions = [sample 11], total_questions = 11,
            current_category = None, categories = [(1, ''Science'')] \<rparr> =
          slice_spec (all_ordered eleven_questions)
            ((page_arg (Some 2) - 1) * QUESTIONS_PER_PAGE)
            ((page_arg (Some 2) - 1) * QUESTIONS_PER_PAGE + QUESTIONS_PER_PAGE)"
    by blast
  have "[sample 11] = slice_spec (all_ordered eleven_questions) 10 20"
    using w by (simp add: page_arg_def QUESTIONS_PER_PAGE_def)
  with h show ?thesis by blast
qed

text \<open>
  C5 as stated fails for a negative page: the bounds of the Python slice then count from
  the end of the list.  Page -1 of eleven questions succeeds with the first question,
  though no position of the list lies between -20 and -10.
\<close>

theorem get_questions_negative_page:
  "get_questions (Some (- 1)) eleven_questions =
     Inr \<lparr> success = True, questions = [sample 1], total_questions = 11,
            current_category = None, categories = [(1, ''Science'')] \<rparr> \<and>
   slice_spec (all_ordered eleven_questions) ((- 1 - 1) * QUESTIONS_PER_PAGE)
     ((- 1 - 1) * QUESTIONS_PER_PAGE + QUESTIONS_PER_PAGE) = []"
  by (simp add: get_questions_eq page_arg_def window_def py_slice_def slice_index_def
        all_ordered_def eleven_questions_def sample_def format_categories_def format_def
        QUESTIONS_PER_PAGE_def slice_spec_def enumerate_eq_zip)

text \<open>
  C8: listing by category always succeeds and returns all questions of the category and
  no others, ordered by ascending id, with their count and no window; an empty result
  is a success like any other.
\<close>

theorem get_by_category_all:
  "\<exists>r. get_by_category c st = Inr r \<and> success r \<and>
       questions r = sort_key q_id (filter (\<lambda>q. q_category q = c) (question_rows st)) \<and>
       sorted (map q_id (questions r)) \<and>
       mset (questions r) = filter_mset (\<lambda>q. q_category q = c) (mset (question_rows st)) \<and>
       total_questions r = length (questions r) \<and>
       total_questions r = size (filter_mset (\<lambda>q. q_category q = c) (mset (question_rows st))) \<and>
       status (get_by_category c st) = 200"
  by (simp add: get_by_category_def map_format Let_def flip: mset_filter)

text \<open>
  C10: for the page argument 0 the window is the slice from -10 to 0, which is empty
  whatever the store holds, so listing page 0 always fails with 404.
\<close>

theorem get_questions_page_zero:
  "(page_arg (Some 0) - 1) * QUESTIONS_PER_PAGE = - 10 \<and>
   (page_arg (Some 0) - 1) * QUESTIONS_PER_PAGE + QUESTIONS_PER_PAGE = 0 \<and>
   py_slice (all_ordered st) (- 10) 0 = [] \<and>
   get_questions (Some 0) st = Inl (HTTPException 404) \<and>
   status (get_questions (Some 0) st) = 404"
  by (simp add: get_questions_eq page_arg_def QUESTIONS_PER_PAGE_def window_zero
        py_slice_def slice_index_def)

subsection \<open>Deleting a question\<close>

text \<open>
  \<open>abort(404)\<close> is raised inside the \<open>try\<close>, whose bare \<open>except\<close> catches it and
  aborts with 422: an id without a row is answered 422 and the store is left as it was.
\<close>

lemma delete_question_absent:
  "list_all (\<lambda>q. q_id q \<noteq> i) (question_rows st) \<Longrightarrow>
   delete_question i st = (Inl (HTTPException 422), st)"
proof -
  assume "list_all (\<lambda>q. q_id q \<noteq> i) (question_rows st)"
  then have "filter (\<lambda>q. q_id q = i) (question_rows st) = []"
    by (simp add: filter_empty_conv list_all_iff)
  then show ?thesis
    by (simp add: delete_question_def one_or_none_def abort_def except_abort_def)
qed

text \<open>
  C1 says that deleting an id that has no row fails with 404, also the second time an
  id is deleted.  The handler answers 422: on the empty store, and on the second of two
  deletions of the only question.
\<close>

theorem delete_question_absent_422:
  "delete_question 1 empty_store = (Inl (HTTPException 422), empty_store) \<and>
   status (fst (delete_question 1 empty_store)) = 422 \<and>
   fst (delete_question 1 one_question) = Inr \<lparr> success = True, deleted = 1 \<rparr> \<and>
   question_rows (snd (delete_question 1 one_question)) = [] \<and>
   status (fst (delete_question 1 (snd (delete_question 1 one_question)))) = 422"
  by (simp add: delete_question_def one_or_none_def abort_def except_abort_def delete_row_def
        empty_store_def one_question_def sample_def)

subsection \<open>Creating a question\<close>

text \<open>
  In create mode \<open>abort(400)\<close> is likewise raised inside the \<open>try\<close> and leaves the
  handler as 422; with four truthy fields the row is inserted.
\<close>

lemma create_mode_falsy:
  assumes "falsy_str (body_searchTerm body)"
    and "falsy_str (body_question body) \<or> falsy_str (body_answer body) \<or>
         falsy_int (body_category body) \<or> falsy_int (body_difficulty body)"
  shows "create_question (Some body) a st = (Inl (HTTPException 422), st)"
  using assms by (simp add: create_question_def Let_def abort_def except_abort_def)

lemma create_mode_truthy:
  assumes "falsy_str (body_searchTerm body)"
    and "body_question body = Some q" "q \<noteq> []" "body_answer body = Some an" "an \<noteq> []"
    and "body_category body = Some c" "c \<noteq> 0" "body_difficulty body = Some d" "d \<noteq> 0"
  shows "create_question (Some body) a st =
           (Inr (Created \<lparr> success = True \<rparr>), insert_question q an c d st)"
  using assms by (simp add: create_question_def Let_def falsy_str_def falsy_int_def except_abort_def)

text \<open>
  C2 says that a body without a truthy \<open>question\<close>, \<open>answer\<close>, \<open>category\<close> or
  \<open>difficulty\<close> fails with 400 in create mode.  The handler answers 422: here the
  question is missing.
\<close>

theorem create_question_missing_422:
  "create_question
     (Some \<lparr> body_question = None, body_answer = Some ''Water'', body_category = Some 1,
             body_difficulty = Some 1, body_searchTerm = None \<rparr>) None one_question =
     (Inl (HTTPException 422), one_question) \<and>
   status (fst (create_question
     (Some \<lparr> body_question = None, body_answer = Some ''Water'', body_category = Some 1,
             body_difficulty = Some 1, body_searchTerm = None \<rparr>) None one_question)) = 422"
  by (simp add: create_question_def Let_def falsy_str_def falsy_int_def abort_def except_abort_def)

subsection \<open>Quiz questions\<close>

text \<open>
  The whole handler is inside a \<open>try\<close> whose \<open>except\<close> aborts with 400, so it answers
  200 or 400 and nothing else: also when nothing was fetched, where it raises
  \<open>abort(404)\<close>.
\<close>

lemma get_quizzes_status:
  "status (get_quizzes json rnd st) = 200 \<or> status (get_quizzes json rnd st) = 400"
  by (cases "get_quizzes json rnd st")
     (auto simp: get_quizzes_def except_abort_def abort_def split: sum.splits option.splits)

lemma get_quizzes_empty_fetch:
  assumes "category_id_of (quiz_category body) = Inr cid" "fetch_questions cid st = []"
  shows "get_quizzes (Some body) rnd st = Inl (HTTPException 400)"
  using assms by (simp add: get_quizzes_def Let_def except_abort_def abort_def)

lemma get_quizzes_malformed:
  "get_quizzes None rnd st = Inl (HTTPException 400)"
  "category_id_of (quiz_category body) = Inl e \<Longrightarrow>
     get_quizzes (Some body) rnd st = Inl (HTTPException 400)"
  by (simp_all add: get_quizzes_def Let_def except_abort_def abort_def)

text \<open>
  C3 says that an empty fetched set fails with 404 and any exception with 400.  The
  handler answers 400 in both cases: here the requested category has no questions.
\<close>

theorem get_quizzes_empty_category_400:
  "fetch_questions (Some 2) one_question = [] \<and>
   get_quizzes
     (Some \<lparr> previous_questions = Some [],
             quiz_category = Some \<lparr> qc_id = Some 2, qc_type = Some ''Art'' \<rparr> \<rparr>) 0 one_question =
     Inl (HTTPException 400) \<and>
   status (get_quizzes
     (Some \<lparr> previous_questions = Some [],
             quiz_category = Some \<lparr> qc_id = Some 2, qc_type = Some ''Art'' \<rparr> \<rparr>) 0 one_question) = 400"
  by (simp add: get_quizzes_def Let_def except_abort_def abort_def category_id_of_def
        fetch_questions_def one_question_def sample_def)

text \<open>
  The removal loop is a filter: every element with a past id is removed once for each
  of its occurrences, so none is left and the others keep their order.
\<close>

lemma fold_remove_filter:
  assumes "filter_mset bad (mset ys) = filter_mset bad (mset xs)"
  shows "fold (\<lambda>q qs. if bad q then remove1 q qs else qs) xs ys = filter (\<lambda>q. \<not> bad q) ys"
  using assms
proof (induction xs arbitrary: ys)
  case Nil
  then have "filter_mset bad (mset ys) = {#}" by simp
  then have "\<forall>y \<in> set ys. \<not> bad y"
    by simp
  then show ?case by simp
next
  case (Cons x xs)
  show ?case
  proof (cases "bad x")
    case False
    with Cons.prems have "filter_mset bad (mset ys) = filter_mset bad (mset xs)" by simp
    with Cons.IH False show ?thesis by simp
  next
    case True
    with Cons.prems have eq: "filter_mset bad (mset ys) = add_mset x (filter_mset bad (mset xs))"
      by simp
    then have "x \<in># filter_mset bad (mset ys)" by simp
    then have mem: "x \<in> set ys" by simp
    have "filter_mset bad (mset (remove1 x ys)) = filter_mset bad (mset ys) - {#x#}"
      using True by (simp add: filter_diff_mset)
    also have "\<dots> = filter_mset bad (mset xs)" using eq by simp
    finally have "fold (\<lambda>q qs. if bad q then remove1 q qs else qs) xs (remove1 x ys) =
        filter (\<lambda>q. \<not> bad q) (remove1 x ys)"
      by (rule Cons.IH)
    moreover have "filter (\<lambda>q. \<not> bad q) (remove1 x ys) = filter (\<lambda>q. \<not> bad q) ys"
      using True by (induction ys) auto
    ultimately show ?thesis using True by simp
  qed
qed

lemma remove_past_filter:
  "remove_past past candidates = filter (\<lambda>q. q_id q \<notin> set past) candidates"
  unfolding remove_past_def by (rule fold_remove_filter) simp


text \<open>
  What the handler answers once something was fetched: a question of the rest, or
  \<open>null\<close> when the rest is empty.
\<close>

lemma get_quizzes_eq:
  assumes "category_id_of (quiz_category body) = Inr cid" "fetch_questions cid st \<noteq> []"
  shows "get_quizzes (Some body) rnd st =
     (let rest = filter (\<lambda>q. q_id q \<notin> set (past_ids body)) (fetch_questions cid st)
      in if rest = [] then Inr \<lparr> success = True, question = None \<rparr>
         else Inr \<lparr> success = True, question = Some (rest ! (rnd mod length rest)) \<rparr>)"
proof (cases "previous_questions body")
  case None
  with assms show ?thesis
    by (simp add: get_quizzes_def Let_def map_format except_abort_def choice_def past_ids_def)
next
  case (Some past)
  with assms show ?thesis
    by (simp add: get_quizzes_def Let_def map_format except_abort_def choice_def past_ids_def
          remove_past_filter)
qed

text \<open>
  C4, as amended: a question the quiz returns is one of the fetched questions and its id
  is not among the previous questions; when the fetched set is not empty and the id of
  every fetched question is among the previous questions, the quiz succeeds with the
  question \<open>null\<close>.
\<close>

theorem get_quizzes_unseen:
  assumes "category_id_of (quiz_category body) = Inr cid"
  shows "(get_quizzes (Some body) rnd st = Inr r \<and> question r = Some q \<longrightarrow>
            q \<in> set (fetch_questions cid st) \<and> q_id q \<notin> set (past_ids body)) \<and>
         (fetch_questions cid st \<noteq> [] \<and>
          list_all (\<lambda>q. q_id q \<in> set (past_ids body)) (fetch_questions cid st) \<longrightarrow>
            get_quizzes (Some body) rnd st = Inr \<lparr> success = True, question = None \<rparr>)"
proof (intro conjI impI)
  assume a: "get_quizzes (Some body) rnd st = Inr r \<and> question r = Some q"
  let ?rest = "filter (\<lambda>q. q_id q \<notin> set (past_ids body)) (fetch_questions cid st)"
  have ne: "fetch_questions cid st \<noteq> []"
  proof
    assume "fetch_questions cid st = []"
    with assms have "get_quizzes (Some body) rnd st = Inl (HTTPException 400)"
      by (simp add: get_quizzes_def Let_def except_abort_def abort_def)
    with a show False by simp
  qed
  have rest: "?rest \<noteq> []" and q: "q = ?rest ! (rnd mod length ?rest)"
    using a get_quizzes_eq [OF assms ne, of rnd] by (auto simp: Let_def split: if_splits)
  have "rnd mod length ?rest < length ?rest" using rest by simp
  then have "q \<in> set ?rest" unfolding q by (rule nth_mem)
  then show "q \<in> set (fetch_questions cid st)" and "q_id q \<notin> set (past_ids body)"
    by simp_all
next
  assume b: "fetch_questions cid st \<noteq> [] \<and>
             list_all (\<lambda>q. q_id q \<in> set (past_ids body)) (fetch_questions cid st)"
  then have "filter (\<lambda>q. q_id q \<notin> set (past_ids body)) (fetch_questions cid st) = []"
    by (simp add: filter_empty_conv list_all_iff)
  with b show "get_quizzes (Some body) rnd st = Inr \<lparr> success = True, question = None \<rparr>"
    using get_quizzes_eq [OF assms, of st rnd] by (simp add: Let_def)
qed

text \<open>
  The store with one question: it is returned while unseen, and the answer is \<open>null\<close>
  once its id is among the previous questions.
\<close>

theorem get_quizzes_unseen_witness:
  "category_id_of None = Inr None \<and>
   get_quizzes (Some \<lparr> previous_questions = Some [2], quiz_category = None \<rparr>) 7 one_question =
     Inr \<lparr> success = True, question = Some (sample 1) \<rparr> \<and>
   sample 1 \<in> set (fetch_questions None one_question) \<and>
   q_id (sample 1) \<notin> set (past_ids \<lparr> previous_questions = Some [2], quiz_category = None \<rparr>) \<and>
   fetch_questions None one_question \<noteq> [] \<and>
   list_all (\<lambda>q. q_id q \<in> set (past_ids \<lparr> previous_questions = Some [1], quiz_category = None \<rparr>))
     (fetch_questions None one_question) \<and>
   get_quizzes (Some \<lparr> previous_questions = Some [1], quiz_category = None \<rparr>) 7 one_question =
     Inr \<lparr> success = True, question = None \<rparr>"
proof -
  have c: "category_id_of (quiz_category \<lparr> previous_questions = Some [2], quiz_category = None \<rparr>)
             = Inr None"
    "category_id_of (quiz_category \<lparr> previous_questions = Some [1], quiz_category = None \<rparr>)
             = Inr None"
    by (simp_all add: category_id_of_def)
  have g: "get_quizzes (Some \<lparr> previous_questions = Some [2], quiz_category = None \<rparr>) 7
             one_question = Inr \<lparr> success = True, question = Some (sample 1) \<rparr>"
    by (simp add: get_quizzes_eq [OF c(1)] fetch_questions_def one_question_def past_ids_def
          sample_def)
  have f: "fetch_questions None one_question \<noteq> []"
    "list_all (\<lambda>q. q_id q \<in> set (past_ids \<lparr> previous_questions = Some [1], quiz_category = None \<rparr>))
       (fetch_questions None one_question)"
    by (simp_all add: fetch_questions_def one_question_def past_ids_def sample_def)
  show ?thesis
    using c g f
      get_quizzes_unseen [OF c(1), of 7 one_question
        "\<lparr> success = True, question = Some (sample 1) \<rparr>" "sample 1"]
      get_quizzes_unseen [OF c(2), of 7 one_question]
    by (simp add: category_id_of_def)
qed

text \<open>
  C4 as stated fails when nothing is fetched: on the empty store the id of every fetched
  question is among the previous questions, and the quiz does not succeed.
\<close>

theorem get_quizzes_exhausted_empty_store:
  "category_id_of (quiz_category \<lparr> previous_questions = Some [], quiz_category = None \<rparr>) = Inr None \<and>
   list_all (\<lambda>q. q_id q \<in> set (past_ids \<lparr> previous_questions = Some [], quiz_category = None \<rparr>))
     (fetch_questions None empty_store) \<and>
   get_quizzes (Some \<lparr> previous_questions = Some [], quiz_category = None \<rparr>) 0 empty_store =
     Inl (HTTPException 400) \<and>
   get_quizzes (Some \<lparr> previous_questions = Some [], quiz_category = None \<rparr>) 0 empty_store \<noteq>
     Inr \<lparr> success = True, question = None \<rparr>"
  by (simp add: get_quizzes_def Let_def except_abort_def abort_def category_id_of_def
        fetch_questions_def empty_store_def)

text \<open>Conversely, while an unseen question is left the answer is not \<open>null\<close>.\<close>

lemma get_quizzes_some_left:
  assumes "category_id_of (quiz_category body) = Inr cid"
    and "q \<in> set (fetch_questions cid st)" "q_id q \<notin> set (past_ids body)"
  shows "\<exists>q'. get_quizzes (Some body) rnd st = Inr \<lparr> success = True, question = Some q' \<rparr>"
proof -
  from assms(2) have ne: "fetch_questions cid st \<noteq> []" by auto
  from assms(2,3) have "filter (\<lambda>q. q_id q \<notin> set (past_ids body)) (fetch_questions cid st) \<noteq> []"
    by (auto simp: filter_empty_conv)
  then show ?thesis
    using get_quizzes_eq [OF assms(1) ne, of rnd] by (simp add: Let_def)
qed

subsection \<open>Searching\<close>

text \<open>
  C9: in search mode, that is with a non-empty \<open>searchTerm\<close>, the store is left as it
  was, no row is created, and the fields \<open>question\<close>, \<open>answer\<close>, \<open>category\<close> and
  \<open>difficulty\<close> of the body have no effect on the outcome.
\<close>

theorem search_mode_frame:
  assumes "body_searchTerm body = Some term" "term \<noteq> []"
  shows "snd (create_question (Some body) a st) = st \<and>
         fst (create_question (Some body) a st) \<noteq> Inr (Created \<lparr> success = True \<rparr>) \<and>
         create_question
           (Some (body\<lparr> body_question := q', body_answer := an', body_category := c',
                       body_difficulty := d' \<rparr>)) a st =
         create_question (Some body) a st"
  using assms
  by (simp add: create_question_def Let_def falsy_str_def except_abort_def abort_def
        split: sum.splits)

text \<open>A search for \<open>h2o\<close> whose body also carries a whole new question.\<close>

theorem search_mode_frame_witness:
  "snd (create_question
     (Some \<lparr> body_question = Some ''What is CO2?'', body_answer = Some ''Carbon dioxide'',
             body_category = Some 1, body_difficulty = Some 2, body_searchTerm = Some ''h2o'' \<rparr>)
     None one_question) = one_question \<and>
   create_question
     (Some \<lparr> body_question = None, body_answer = None, body_category = None,
             body_difficulty = None, body_searchTerm = Some ''h2o'' \<rparr>) None one_question =
   create_question
     (Some \<lparr> body_question = Some ''What is CO2?'', body_answer = Some ''Carbon dioxide'',
             body_category = Some 1, body_difficulty = Some 2, body_searchTerm = Some ''h2o'' \<rparr>)
     None one_question"
  using search_mode_frame [of "\<lparr> body_question = Some ''What is CO2?'',
      body_answer = Some ''Carbon dioxide'', body_category = Some 1, body_difficulty = Some 2,
      body_searchTerm = Some ''h2o'' \<rparr>" "''h2o''" None one_question None None None None]
  by simp

subsection \<open>Search patterns\<close>

text \<open>
  What a pattern matches: a leading \<open>%\<close> skips any prefix of the text, and a run of
  characters without a meaning of their own must stand at the front of the text.
\<close>

lemma like_percent: "like (CHR ''%'' # ps) s = (\<exists>a b. s = a @ b \<and> like ps b)"
proof (induction s)
  case Nil
  show ?case by simp
next
  case (Cons c cs)
  have "like (CHR ''%'' # ps) (c # cs) = (like ps (c # cs) \<or> like (CHR ''%'' # ps) cs)"
    by simp
  also have "\<dots> = (like ps (c # cs) \<or> (\<exists>a b. cs = a @ b \<and> like ps b))"
    using Cons.IH by simp
  also have "\<dots> = (\<exists>a b. c # cs = a @ b \<and> like ps b)"
    by (auto simp: Cons_eq_append_conv)
  finally show ?case .
qed

lemma like_plain:
  "wildcard_free t \<Longrightarrow> like (t @ ps) s = (\<exists>b. s = t @ b \<and> like ps b)"
proof (induction t arbitrary: s)
  case Nil
  show ?case by simp
next
  case (Cons c t)
  then have c: "c \<noteq> CHR ''%''" "c \<noteq> CHR ''_''" "c \<noteq> CHR 0x5C" and t: "wildcard_free t"
    by (simp_all add: wildcard_free_def special_def)
  show ?case
  proof (cases s)
    case Nil
    with c show ?thesis by simp
  next
    case (Cons d ds)
    with c Cons.IH [OF t, of ds] show ?thesis by auto
  qed
qed

text \<open>So a term without such characters, between two \<open>%\<close>, is searched as a substring.\<close>

lemma like_substring:
  assumes "wildcard_free t"
  shows "like (''%'' @ t @ ''%'') s = sublist t s"
proof -
  have "like (''%'' @ t @ ''%'') s = (\<exists>a b. s = a @ b \<and> like (t @ ''%'') b)"
    using like_percent [of "t @ ''%''" s] by simp
  also have "\<dots> = (\<exists>a b. s = a @ b \<and> (\<exists>b'. b = t @ b' \<and> like ''%'' b'))"
    by (simp add: like_plain [OF assms])
  also have "\<dots> = (\<exists>a b'. s = a @ t @ b')"
    using like_percent [of "[]"] by auto
  finally show ?thesis by (simp add: sublist_def)
qed

text \<open>Lowering the case turns letters into letters and leaves every other character.\<close>

lemma lower_special: "special c \<Longrightarrow> lower c = c"
proof -
  assume "special c"
  then consider "c = CHR ''%''" | "c = CHR ''_''" | "c = CHR 0x5C"
    unfolding special_def by blast
  then show ?thesis
    by cases (simp_all add: lower_def)
qed

lemma letters_not_special: "l \<in> set ''abcdefghijklmnopqrstuvwxyz'' \<Longrightarrow> \<not> special l"
proof
  assume l: "l \<in> set ''abcdefghijklmnopqrstuvwxyz''" and "special l"
  then consider "l = CHR ''%''" | "l = CHR ''_''" | "l = CHR 0x5C"
    unfolding special_def by blast
  then show False using l by cases simp_all
qed

lemma lower_cases: "lower c = c \<or> lower c \<in> set ''abcdefghijklmnopqrstuvwxyz''"
proof (cases "map_of (zip ''ABCDEFGHIJKLMNOPQRSTUVWXYZ'' ''abcdefghijklmnopqrstuvwxyz'') c")
  case None
  then show ?thesis by (simp add: lower_def)
next
  case (Some l)
  then have "(c, l) \<in> set (zip ''ABCDEFGHIJKLMNOPQRSTUVWXYZ'' ''abcdefghijklmnopqrstuvwxyz'')"
    by (rule map_of_SomeD)
  then have "l \<in> set ''abcdefghijklmnopqrstuvwxyz''"
    by (rule set_zip_rightD)
  with Some show ?thesis by (simp add: lower_def)
qed

lemma special_lower: "special (lower c) = special c"
proof (cases "special c")
  case True
  then show ?thesis by (simp add: lower_special)
next
  case False
  from lower_cases [of c] have "\<not> special (lower c)"
  proof
    assume "lower c = c"
    with False show ?thesis by simp
  next
    assume "lower c \<in> set ''abcdefghijklmnopqrstuvwxyz''"
    then show ?thesis by (rule letters_not_special)
  qed
  with False show ?thesis by simp
qed

lemma wildcard_free_lower: "wildcard_free (map lower t) = wildcard_free t"
  by (simp add: wildcard_free_def list_all_iff special_lower)

text \<open>The pattern of a search ends in \<open>%\<close>, never in a lone backslash.\<close>

lemma valid_pattern_percent: "valid_pattern (p @ ''%'')"
  by (induction p rule: valid_pattern.induct) simp_all

lemma ilike_substring:
  assumes "wildcard_free t"
  shows "ilike (''%'' @ t @ ''%'') s = contains_ci t s"
proof -
  have "lower (CHR ''%'') = CHR ''%''"
    by (rule lower_special) (simp add: special_def)
  then have "map lower (''%'' @ t @ ''%'') = ''%'' @ map lower t @ ''%''"
    by simp
  then show ?thesis
    using like_substring [of "map lower t" "map lower s"] assms
    by (simp add: ilike_def contains_ci_def wildcard_free_lower)
qed

lemma search_query_plain:
  assumes "wildcard_free t"
  shows "search_query t st = Inr (filter (\<lambda>q. contains_ci t (q_question q)) (all_ordered st))"
proof -
  have "valid_pattern (''%'' @ t @ ''%'')"
    using valid_pattern_percent [of "''%'' @ t"] by simp
  then show ?thesis
    using ilike_substring [OF assms] by (simp add: search_query_def Let_def)
qed

text \<open>
  For a term without \<open>%\<close>, \<open>_\<close> and backslash the search returns the window of the
  questions that contain the term, whatever the case, in ascending id order, with the
  count of all of them; when none does, it succeeds with an empty list and the count 0.
\<close>

lemma search_mode_plain:
  assumes "body_searchTerm body = Some t" "t \<noteq> []" "wildcard_free t"
  shows "create_question (Some body) a st =
     (Inr (Found \<lparr> success = True,
            questions = window (page_arg a)
                          (filter (\<lambda>q. contains_ci t (q_question q)) (all_ordered st)),
            total_questions = length (filter (\<lambda>q. contains_ci t (q_question q)) (all_ordered st)),
            current_category = None \<rparr>), st)"
  using assms
  by (simp add: create_question_def Let_def falsy_str_def except_abort_def
        search_query_plain map_format window_def)

lemma search_mode_no_match:
  assumes "body_searchTerm body = Some t" "t \<noteq> []" "wildcard_free t"
    and "list_all (\<lambda>q. \<not> contains_ci t (q_question q)) (question_rows st)"
  shows "create_question (Some body) a st =
     (Inr (Found \<lparr> success = True, questions = [], total_questions = 0,
                   current_category = None \<rparr>), st)"
proof -
  from assms(4) have "filter (\<lambda>q. contains_ci t (q_question q)) (all_ordered st) = []"
    by (simp add: filter_empty_conv list_all_iff all_ordered_def)
  then show ?thesis
    using search_mode_plain [OF assms(1-3), of a st]
    by (simp add: window_def py_slice_def)
qed

text \<open>
  C7 says that a search returns exactly the questions whose text contains the search
  term.  The term is put into the pattern as it is, so a \<open>%\<close> or \<open>_\<close> in it is a
  wildcard: the search for \<open>%\<close> returns a question that has no \<open>%\<close> in it.
\<close>

theorem search_percent_matches_all:
  "fst (create_question
     (Some \<lparr> body_question = None, body_answer = None, body_category = None,
             body_difficulty = None, body_searchTerm = Some ''%'' \<rparr>) None one_question) =
     Inr (Found \<lparr> success = True, questions = [sample 1], total_questions = 1,
                  current_category = None \<rparr>) \<and>
   q_question (sample 1) = ''What is H2O?'' \<and>
   \<not> contains_ci ''%'' (q_question (sample 1))"
proof -
  have l: "map lower ''What is H2O?'' = ''what is h2o?''" "map lower ''%%%'' = ''%%%''"
    "map lower ''%'' = ''%''"
    by (simp_all add: lower_def)
  have m: "like ''%%%'' ''what is h2o?''"
    by simp
  have n: "\<not> sublist ''%'' ''what is h2o?''"
    by (simp add: sublist_Cons_right)
  show ?thesis
    using l m n
    by (simp add: create_question_def Let_def falsy_str_def except_abort_def search_query_def
          ilike_def all_ordered_def one_question_def sample_def format_def page_arg_def
          QUESTIONS_PER_PAGE_def py_slice_def slice_index_def contains_ci_def)
qed

end
